theory Spec2Isabelle
  imports Main "HOL-Library.Word"
begin

unbundle bit_operations_syntax

section \<open>The Synacor virtual machine of vm.c\<close>

text \<open>
  A shallow embedding of \<^verbatim>\<open>src/vm.c\<close>. The C program keeps its machine in global
  variables; here they are the fields of one record that every function takes and returns.

  Platform conventions of the embedding: \<^verbatim>\<open>unsigned short\<close> has 16 bits and is a
  \<open>16 word\<close>, \<^verbatim>\<open>int\<close> has 32 bits and is an \<open>int\<close> with the overflow written out where
  it can happen, and the host is little-endian. The integer promotions of C are written
  as \<open>uint\<close>, the conversions back to \<^verbatim>\<open>unsigned short\<close> as \<open>word_of_int\<close>.

  C leaves three things this program can do without a meaning: an array element outside
  the declared bounds, a signed overflow and a remainder by zero. Each of them is the
  outcome \<open>Undefined\<close> of the embedding, which is different from the controlled abort of
  \<^verbatim>\<open>vm_fail\<close> (the outcome \<open>Aborted\<close>, exit status 1) and from \<^verbatim>\<open>exit(0)\<close> (the outcome
  \<open>Halted\<close>).
\<close>

subsection \<open>Defines\<close>

type_synonym u8 = "8 word"
type_synonym u16 = "16 word"

abbreviation STACK_SIZE :: int where "STACK_SIZE \<equiv> 32768"
abbreviation ARCH_MODULO :: int where "ARCH_MODULO \<equiv> 32768"
abbreviation REGISTERS_SIZE :: int where "REGISTERS_SIZE \<equiv> 8"
abbreviation STORAGE_REG_LOW :: int where "STORAGE_REG_LOW \<equiv> 32768"
abbreviation STORAGE_REG_HIGH :: int where "STORAGE_REG_HIGH \<equiv> 32775"
abbreviation MEMORY_SIZE :: int where "MEMORY_SIZE \<equiv> 32767"
abbreviation VALUE_MAX_LITERAL :: int where "VALUE_MAX_LITERAL \<equiv> 32767"
abbreviation VALUE_MAX_REGISTER :: int where "VALUE_MAX_REGISTER \<equiv> 32775"
abbreviation INT_MAX :: int where "INT_MAX \<equiv> 2147483647"

subsection \<open>Global variables and the ways the process ends\<close>

text \<open>
  An array \<^verbatim>\<open>unsigned short contents[N]\<close> is a function from the index to the element,
  read and written only after the check \<open>in_bounds N i\<close>. The program counter is the
  local \<^verbatim>\<open>int pc\<close> of \<^verbatim>\<open>binary_exec\<close>, handed to \<^verbatim>\<open>operation_exec\<close> by pointer; standard
  input and output are the bytes still to be read and the bytes written so far.
\<close>

record vm =
  registers :: "int \<Rightarrow> u16"
  memory :: "int \<Rightarrow> u16"
  stack_position :: int
  stack_contents :: "int \<Rightarrow> u16"
  binary_size :: int
  binary_length :: int
  binary_path :: string
  pc :: int
  stdin :: "u8 list"
  stdout :: "u8 list"

datatype fmt_arg = S string | D int

datatype stop =
  Halted
  | Aborted string "fmt_arg list"
  | Undefined

definition vm_fail :: "string \<Rightarrow> fmt_arg list \<Rightarrow> stop + 'a" where
  "vm_fail fmt args = Inl (Aborted fmt args)"

definition in_bounds :: "int \<Rightarrow> int \<Rightarrow> bool" where
  "in_bounds n i \<longleftrightarrow> 0 \<le> i \<and> i < n"

definition and_then :: "stop + 'a \<Rightarrow> ('a \<Rightarrow> stop + 'b) \<Rightarrow> stop + 'b" where
  "and_then m f = (case m of Inl e \<Rightarrow> Inl e | Inr x \<Rightarrow> f x)"

subsection \<open>Registers\<close>

definition reg_init :: "vm \<Rightarrow> vm" where
  "reg_init st = st\<lparr>registers := (\<lambda>i. 0)\<rparr>"

definition reg_write :: "vm \<Rightarrow> u16 \<Rightarrow> u16 \<Rightarrow> stop + vm" where
  "reg_write st address val =
     (if uint address < STORAGE_REG_LOW \<or> uint address > STORAGE_REG_HIGH
      then vm_fail ''Function %s() failed!'' [S ''reg_write'']
      else Inr (st\<lparr>registers := (registers st)(uint address - STORAGE_REG_LOW := val)\<rparr>))"

definition reg_read :: "vm \<Rightarrow> u16 \<Rightarrow> stop + u16" where
  "reg_read st address =
     (if uint address < STORAGE_REG_LOW then Inr address
      else if in_bounds REGISTERS_SIZE (uint address - STORAGE_REG_LOW)
      then Inr (registers st (uint address - STORAGE_REG_LOW))
      else Inl Undefined)"

subsection \<open>Operand resolution\<close>

definition val_get :: "vm \<Rightarrow> u16 \<Rightarrow> stop + u16" where
  "val_get st input =
     (if uint input \<le> VALUE_MAX_LITERAL then Inr input
      else if uint input \<le> VALUE_MAX_REGISTER then reg_read st input
      else vm_fail ''Function %s() failed!'' [S ''val_get''])"

text \<open>
  Where one C expression holds two calls of \<^verbatim>\<open>val_get\<close> as operands of one operator or
  as arguments of one call, C does not say which runs first. The flag \<open>lr\<close> is that
  choice: left operand first when it is true.
\<close>

definition val_get2 :: "bool \<Rightarrow> vm \<Rightarrow> u16 \<Rightarrow> u16 \<Rightarrow> stop + u16 \<times> u16" where
  "val_get2 lr st x y =
     (if lr
      then and_then (val_get st x) (\<lambda>vx. and_then (val_get st y) (\<lambda>vy. Inr (vx, vy)))
      else and_then (val_get st y) (\<lambda>vy. and_then (val_get st x) (\<lambda>vx. Inr (vx, vy))))"

subsection \<open>Memory\<close>

definition mem_init :: "vm \<Rightarrow> vm" where
  "mem_init st = st\<lparr>memory := (\<lambda>i. 0)\<rparr>"

definition mem_read :: "vm \<Rightarrow> u16 \<Rightarrow> stop + u16" where
  "mem_read st address =
     (if in_bounds MEMORY_SIZE (uint address) then Inr (memory st (uint address))
      else Inl Undefined)"

definition mem_write :: "vm \<Rightarrow> u16 \<Rightarrow> u16 \<Rightarrow> stop + vm" where
  "mem_write st address val =
     (if in_bounds MEMORY_SIZE (uint address)
      then Inr (st\<lparr>memory := (memory st)(uint address := val)\<rparr>)
      else Inl Undefined)"

subsection \<open>Stack\<close>

definition stack_init :: "vm \<Rightarrow> vm" where
  "stack_init st = st\<lparr>stack_position := - 1\<rparr>"

definition stack_is_full :: "vm \<Rightarrow> bool" where
  "stack_is_full st \<longleftrightarrow> stack_position st \<ge> STACK_SIZE - 1"

definition stack_is_empty :: "vm \<Rightarrow> bool" where
  "stack_is_empty st \<longleftrightarrow> stack_position st < 0"

definition stack_pop :: "vm \<Rightarrow> stop + u16 \<times> vm" where
  "stack_pop st =
     (if stack_is_empty st then vm_fail ''Function stack_pop() failed!'' []
      else if in_bounds STACK_SIZE (stack_position st)
      then Inr (stack_contents st (stack_position st),
                st\<lparr>stack_position := stack_position st - 1\<rparr>)
      else Inl Undefined)"

definition stack_push :: "vm \<Rightarrow> u16 \<Rightarrow> stop + vm" where
  "stack_push st element =
     (if stack_is_full st then vm_fail ''Function %s() failed!'' [S ''stack_push'']
      else if in_bounds STACK_SIZE (stack_position st + 1)
      then Inr (st\<lparr>stack_position := stack_position st + 1,
                   stack_contents := (stack_contents st)(stack_position st + 1 := element)\<rparr>)
      else Inl Undefined)"

subsection \<open>Host input and output\<close>

text \<open>
  \<^verbatim>\<open>getchar\<close> yields the next byte as a non-negative \<^verbatim>\<open>int\<close>, or \<^verbatim>\<open>EOF\<close>, which is \<open>-1\<close>,
  when standard input has ended; \<^verbatim>\<open>putchar\<close> writes its argument converted to
  \<^verbatim>\<open>unsigned char\<close>.
\<close>

definition getchar :: "vm \<Rightarrow> int \<times> vm" where
  "getchar st =
     (case stdin st of
        [] \<Rightarrow> (- 1, st)
      | ch # rest \<Rightarrow> (uint ch, st\<lparr>stdin := rest\<rparr>))"

definition putchar :: "vm \<Rightarrow> int \<Rightarrow> vm" where
  "putchar st ch = st\<lparr>stdout := stdout st @ [word_of_int ch]\<rparr>"

subsection \<open>One operation\<close>

definition pc_add :: "int \<Rightarrow> vm \<Rightarrow> stop + vm" where
  "pc_add n st = Inr (st\<lparr>pc := pc st + n\<rparr>)"

definition pc_set :: "vm \<Rightarrow> u16 \<Rightarrow> stop + vm" where
  "pc_set st target = Inr (st\<lparr>pc := uint target\<rparr>)"

definition operation_exec :: "bool \<Rightarrow> vm \<Rightarrow> u16 \<Rightarrow> u16 \<Rightarrow> u16 \<Rightarrow> u16 \<Rightarrow> stop + vm" where
  "operation_exec lr st opcode a b c =
    (if opcode = 0 then Inl Halted
     else if opcode = 1 then
       and_then (and_then (reg_read st b) (reg_write st a)) (pc_add 3)
     else if opcode = 2 then
       and_then (and_then (val_get st a) (stack_push st)) (pc_add 2)
     else if opcode = 3 then
       and_then (and_then (stack_pop st) (\<lambda>(v, st1). reg_write st1 a v)) (pc_add 2)
     else if opcode = 4 then
       and_then (and_then (val_get2 lr st b c)
         (\<lambda>(vb, vc). reg_write st a (if vb = vc then 1 else 0))) (pc_add 4)
     else if opcode = 5 then
       and_then (and_then (val_get2 lr st b c)
         (\<lambda>(vb, vc). reg_write st a (if uint vb > uint vc then 1 else 0))) (pc_add 4)
     else if opcode = 6 then
       and_then (val_get st a) (pc_set st)
     else if opcode = 7 then
       and_then (val_get st a)
         (\<lambda>va. if va \<noteq> 0 then and_then (val_get st b) (pc_set st) else pc_add 3 st)
     else if opcode = 8 then
       and_then (val_get st a)
         (\<lambda>va. if va = 0 then and_then (val_get st b) (pc_set st) else pc_add 3 st)
     else if opcode = 9 then
       and_then (and_then (val_get2 lr st b c)
         (\<lambda>(vb, vc). reg_write st a (word_of_int ((uint vb + uint vc) mod ARCH_MODULO))))
         (pc_add 4)
     else if opcode = 10 then
       and_then (and_then (val_get2 lr st b c)
         (\<lambda>(vb, vc). if uint vb * uint vc > INT_MAX then Inl Undefined
            else reg_write st a (word_of_int ((uint vb * uint vc) mod ARCH_MODULO))))
         (pc_add 4)
     else if opcode = 11 then
       and_then (and_then (val_get2 lr st b c)
         (\<lambda>(vb, vc). if uint vc = 0 then Inl Undefined
            else reg_write st a (word_of_int (uint vb mod uint vc))))
         (pc_add 4)
     else if opcode = 12 then
       and_then (and_then (val_get2 lr st b c)
         (\<lambda>(vb, vc). reg_write st a (word_of_int (uint vb AND uint vc)))) (pc_add 4)
     else if opcode = 13 then
       and_then (and_then (val_get2 lr st b c)
         (\<lambda>(vb, vc). reg_write st a (word_of_int (uint vb OR uint vc)))) (pc_add 4)
     else if opcode = 14 then
       and_then (and_then (val_get st b)
         (\<lambda>vb. reg_write st a (word_of_int (NOT (uint vb) AND 0x7fff)))) (pc_add 3)
     else if opcode = 15 then
       and_then (and_then (and_then (val_get st b) (mem_read st)) (reg_write st a)) (pc_add 3)
     else if opcode = 16 then
       and_then (and_then (val_get2 lr st a b) (\<lambda>(va, vb). mem_write st va vb)) (pc_add 3)
     else if opcode = 17 then
       and_then (stack_push st (word_of_int (pc st + 2)))
         (\<lambda>st1. and_then (val_get st1 a) (pc_set st1))
     else if opcode = 18 then
       and_then (stack_pop st) (\<lambda>(v, st1). pc_set st1 v)
     else if opcode = 19 then
       and_then (val_get st a) (\<lambda>va. pc_add 2 (putchar st (uint va)))
     else if opcode = 20 then
       (case getchar st of (ch, st1) \<Rightarrow> and_then (reg_write st1 a (word_of_int ch)) (pc_add 2))
     else if opcode = 21 then pc_add 1 st
     else vm_fail ''Function %s() failed! [opcode:%d] [pc:%d]''
            [S ''operation_exec'', D (uint opcode), D (pc st)])"

subsection \<open>Loading and running the binary\<close>

text \<open>
  \<^verbatim>\<open>fread\<close> copies the bytes of the file over the bytes of \<^verbatim>\<open>memory.contents\<close>. On the
  little-endian host the byte at offset \<open>2 * i\<close> is the low half of word \<open>i\<close> and the byte
  at offset \<open>2 * i + 1\<close> its high half; a half that no byte of the file reaches keeps its
  old content.
\<close>

definition fread_word :: "u8 list \<Rightarrow> u16 \<Rightarrow> int \<Rightarrow> u16" where
  "fread_word bytes old i =
     (if 2 * i + 1 < int (length bytes)
      then word_of_int (uint (bytes ! nat (2 * i)) + 256 * uint (bytes ! nat (2 * i + 1)))
      else if 2 * i < int (length bytes)
      then word_of_int (uint (bytes ! nat (2 * i)) + 256 * (uint old div 256))
      else old)"

definition binary_init :: "vm \<Rightarrow> string list \<Rightarrow> int \<times> vm" where
  "binary_init st argv =
     (if length argv < 2 then (- 1, st\<lparr>binary_path := []\<rparr>)
      else (0, st\<lparr>binary_path := argv ! 1\<rparr>))"

text \<open>
  The file system is a function from a path to the bytes of the file there, if it can be
  opened. The file is read whole, so the branch of \<^verbatim>\<open>binary_load\<close> for a short read is
  never taken. A file longer than the \<open>2 * MEMORY_SIZE\<close> bytes of \<^verbatim>\<open>memory.contents\<close> is
  copied beyond the array. The stream object, which the function releases with \<^verbatim>\<open>free\<close>,
  is not part of the embedding.
\<close>

definition binary_load :: "(string \<Rightarrow> u8 list option) \<Rightarrow> vm \<Rightarrow> stop + vm" where
  "binary_load fs st =
     (case fs (binary_path st) of
        None \<Rightarrow> vm_fail ''Cannot open binary file ... [%s]'' [S (binary_path st)]
      | Some bytes \<Rightarrow>
          if int (length bytes) > 2 * MEMORY_SIZE then Inl Undefined
          else Inr (st\<lparr>binary_size := int (length bytes),
                       memory := (\<lambda>i. if in_bounds MEMORY_SIZE i
                                      then fread_word bytes (memory st i) i else memory st i),
                       binary_length := int (length bytes) div 2\<rparr>))"

text \<open>
  The body of the \<^verbatim>\<open>while (1)\<close> of \<^verbatim>\<open>binary_exec\<close>: fetch four words at \<open>pc\<close>, execute,
  check the program counter. When the run ends here, the bytes written to standard
  output so far come with the outcome.
\<close>

definition binary_exec_body :: "bool \<Rightarrow> vm \<Rightarrow> stop \<times> u8 list + vm" where
  "binary_exec_body lr st =
     (if in_bounds MEMORY_SIZE (pc st) \<and> in_bounds MEMORY_SIZE (pc st + 3)
      then
        (case operation_exec lr st (memory st (pc st)) (memory st (pc st + 1))
                (memory st (pc st + 2)) (memory st (pc st + 3)) of
           Inl e \<Rightarrow> Inl (e, stdout st)
         | Inr st1 \<Rightarrow>
             if pc st1 < 0 \<or> pc st1 > binary_length st1
             then Inl (Aborted ''Program counter out of bounds.'' [], stdout st1)
             else Inr st1)
      else Inl (Undefined, stdout st))"

text \<open>
  The loop has no exit of its own: it ends only when the process does. \<open>binary_exec_loop\<close>
  runs at most \<open>n\<close> rounds of it and returns the machine if it is still running then;
  round \<open>k\<close> evaluates its operands in the order \<open>ord k\<close>.
\<close>

fun binary_exec_loop :: "(nat \<Rightarrow> bool) \<Rightarrow> nat \<Rightarrow> vm \<Rightarrow> stop \<times> u8 list + vm" where
  "binary_exec_loop ord 0 st = Inr st"
| "binary_exec_loop ord (Suc n) st =
     (case binary_exec_body (ord 0) st of
        Inl e \<Rightarrow> Inl e
      | Inr st1 \<Rightarrow> binary_exec_loop (\<lambda>k. ord (Suc k)) n st1)"

definition binary_exec :: "(nat \<Rightarrow> bool) \<Rightarrow> nat \<Rightarrow> vm \<Rightarrow> stop \<times> u8 list + vm" where
  "binary_exec ord n st = binary_exec_loop ord n (st\<lparr>pc := 0\<rparr>)"

text \<open>The globals of a C program start as zeros; \<open>globals inp\<close> are they, with \<open>inp\<close> on
  standard input.\<close>

definition globals :: "u8 list \<Rightarrow> vm" where
  "globals inp =
     \<lparr>registers = (\<lambda>i. 0), memory = (\<lambda>i. 0), stack_position = 0, stack_contents = (\<lambda>i. 0),
      binary_size = 0, binary_length = 0, binary_path = [], pc = 0,
      stdin = inp, stdout = []\<rparr>"

definition main :: "(nat \<Rightarrow> bool) \<Rightarrow> nat \<Rightarrow> string list \<Rightarrow> (string \<Rightarrow> u8 list option) \<Rightarrow> u8 list
    \<Rightarrow> stop \<times> u8 list + vm" where
  "main ord n argv fs inp =
     (case binary_init (globals inp) argv of
        (ret, st0) \<Rightarrow>
          if ret < 0 then Inl (Aborted ''Please provide path to binary file ...'' [], [])
          else
            (case binary_load fs (stack_init (mem_init (reg_init st0))) of
               Inl e \<Rightarrow> Inl (e, [])
             | Inr st1 \<Rightarrow> binary_exec ord n st1))"

subsection \<open>Notions the properties are stated with\<close>

text \<open>
  The slots of \<^verbatim>\<open>stack.contents\<close> in use, bottom first: the indices \<open>0\<close> to
  \<open>stack.position\<close>. A slot above \<open>stack.position\<close> keeps what was last stored there,
  which no pop can return before a push has overwritten it.
\<close>

definition stack_live :: "vm \<Rightarrow> u16 list" where
  "stack_live st = map (stack_contents st) [0..stack_position st]"

text \<open>
  Every slot of the registers and of the stack holds a 15-bit value; and the same of the
  memory as well, which is the invariant as the specification words it.
\<close>

definition rs_ok :: "vm \<Rightarrow> bool" where
  "rs_ok st \<longleftrightarrow>
     (\<forall>i \<in> {0..<REGISTERS_SIZE}. uint (registers st i) \<le> 32767) \<and>
     (\<forall>i \<in> {0..<STACK_SIZE}. uint (stack_contents st i) \<le> 32767)"

definition words_ok :: "vm \<Rightarrow> bool" where
  "words_ok st \<longleftrightarrow>
     (\<forall>i \<in> {0..<REGISTERS_SIZE}. uint (registers st i) \<le> 32767) \<and>
     (\<forall>i \<in> {0..<MEMORY_SIZE}. uint (memory st i) \<le> 32767) \<and>
     (\<forall>i \<in> {0..<STACK_SIZE}. uint (stack_contents st i) \<le> 32767)"




section \<open>Sequencing\<close>

lemma and_then_Inr [simp]: "and_then (Inr x) f = f x"
  by (simp add: and_then_def)

lemma and_then_Inl [simp]: "and_then (Inl e) f = Inl e"
  by (simp add: and_then_def)

lemma and_then_eq_Inr: "and_then m f = Inr y \<longleftrightarrow> (\<exists>x. m = Inr x \<and> f x = Inr y)"
  by (cases m) simp_all

lemmas prim_defs = val_get2_def val_get_def reg_read_def reg_write_def stack_push_def
  stack_pop_def mem_read_def mem_write_def pc_add_def pc_set_def getchar_def putchar_def
  vm_fail_def stack_is_empty_def stack_is_full_def

section \<open>Operand resolution\<close>

lemma uint_u16_range: "0 \<le> uint (w :: u16) \<and> uint w \<le> 65535"
  using uint_bounded [of w] by simp

text \<open>
  C1. \<open>val_get\<close> returns a field in 0..32767 unchanged, returns the content of register
  \<open>f - 32768\<close> for a field \<open>f\<close> in 32768..32775, and aborts the run through \<^verbatim>\<open>vm_fail\<close> for
  every field in 32776..65535.
\<close>

theorem val_get_classifies:
  "(uint f \<le> 32767 \<longrightarrow> val_get st f = Inr f) \<and>
   (32768 \<le> uint f \<and> uint f \<le> 32775 \<longrightarrow> val_get st f = Inr (registers st (uint f - 32768))) \<and>
   (32776 \<le> uint f \<longrightarrow> val_get st f = Inl (Aborted ''Function %s() failed!'' [S ''val_get'']))"
  by (simp add: val_get_def reg_read_def in_bounds_def vm_fail_def)

theorem val_get_classifies_witness:
  "val_get (globals []) 5 = Inr 5 \<and>
   val_get ((globals [])\<lparr>registers := (\<lambda>i. 0)(3 := 77)\<rparr>) 32771 = Inr 77 \<and>
   val_get (globals []) 32776 = Inl (Aborted ''Function %s() failed!'' [S ''val_get''])"
  using val_get_classifies [of 5 "globals []"]
    val_get_classifies [of 32771 "(globals [])\<lparr>registers := (\<lambda>i. 0)(3 := 77)\<rparr>"]
    val_get_classifies [of 32776 "globals []"]
  by simp

section \<open>The source of set\<close>

text \<open>
  C2. The claim: \<open>set\<close> stores the resolver's result for \<open>b\<close>, and aborts for a field \<open>b\<close>
  in 32776..65535. The code resolves \<open>b\<close> with \<^verbatim>\<open>reg_read\<close>, which has no check of the
  upper end: at \<open>b = 32776\<close> it reads \<^verbatim>\<open>registers.contents[8]\<close>, outside the array, and
  \<^verbatim>\<open>vm_fail\<close> is not called, while \<^verbatim>\<open>val_get\<close> on the same field aborts.
\<close>

theorem set_invalid_source_reads_outside:
  "operation_exec True (stack_init (mem_init (reg_init (globals [])))) 1 32768 32776 0
     = Inl Undefined \<and>
   val_get (stack_init (mem_init (reg_init (globals [])))) 32776
     = Inl (Aborted ''Function %s() failed!'' [S ''val_get''])"
  by (simp add: operation_exec_def reg_read_def val_get_def in_bounds_def vm_fail_def)

section \<open>Memory\<close>

lemma mem_write_read:
  "uint address < MEMORY_SIZE \<Longrightarrow>
   and_then (mem_write st address v) (\<lambda>st1. mem_read st1 address) = Inr v"
  by (simp add: mem_write_def mem_read_def in_bounds_def)

text \<open>
  C4. The claim: memory has 32768 slots and a write followed by a read of the same
  address returns the written value for every address in 0..32767. The array has
  \<open>MEMORY_SIZE = 32767\<close> slots, so address 32767 is one past its end: neither
  \<^verbatim>\<open>mem_write\<close> nor \<^verbatim>\<open>mem_read\<close> is a defined access there.
\<close>

theorem mem_last_address_outside:
  "mem_write (mem_init (globals [])) 32767 1 = Inl Undefined \<and>
   mem_read (mem_init (globals [])) 32767 = Inl Undefined"
  by (simp add: mem_write_def mem_read_def in_bounds_def)

section \<open>Stack\<close>

lemma length_stack_live: "int (length (stack_live st)) = max 0 (stack_position st + 1)"
  by (simp add: stack_live_def)

lemma stack_live_push:
  assumes "- 1 \<le> p"
  shows "map (f(p + 1 := v)) [0..p + 1] = map f [0..p] @ [v]"
proof -
  have "[0..p + 1] = [0..p] @ [p + 1]"
    using assms upto_rec2 [of 0 "p + 1"] by simp
  moreover have "map (f(p + 1 := v)) [0..p] = map f [0..p]"
    by (rule map_cong) auto
  ultimately show ?thesis by simp
qed

text \<open>
  C5. The stack is a LIFO of capacity 32768. With \<open>stack.position\<close> at least \<open>-1\<close>, as
  \<^verbatim>\<open>stack_init\<close> sets it and every operation keeps it: the stack is full exactly when
  32768 slots are in use and empty exactly when none is; on a stack that is not full,
  \<open>push v\<close> adds \<open>v\<close> on top, and the \<open>pop\<close> after it returns \<open>v\<close> and leaves the slots in
  use and the position as they were before the push; \<open>pop\<close> on an empty stack and
  \<open>push\<close> on a full stack abort the run through \<^verbatim>\<open>vm_fail\<close>.
\<close>

theorem stack_lifo:
  "(- 1 \<le> stack_position st \<longrightarrow>
      (stack_is_full st \<longleftrightarrow> 32768 \<le> length (stack_live st)) \<and>
      (stack_is_empty st \<longleftrightarrow> stack_live st = [])) \<and>
   (- 1 \<le> stack_position st \<and> \<not> stack_is_full st \<longrightarrow>
      (let st1 = st\<lparr>stack_position := stack_position st + 1,
                     stack_contents := (stack_contents st)(stack_position st + 1 := v)\<rparr>;
           st2 = st1\<lparr>stack_position := stack_position st\<rparr>
       in stack_push st v = Inr st1 \<and> stack_live st1 = stack_live st @ [v] \<and>
          stack_pop st1 = Inr (v, st2) \<and> stack_live st2 = stack_live st)) \<and>
   (stack_is_empty st \<longrightarrow> stack_pop st = Inl (Aborted ''Function stack_pop() failed!'' [])) \<and>
   (stack_is_full st \<longrightarrow>
      stack_push st v = Inl (Aborted ''Function %s() failed!'' [S ''stack_push'']))"
proof (intro conjI impI)
  assume p: "- 1 \<le> stack_position st"
  have "int (length (stack_live st)) = stack_position st + 1"
    using p by (simp add: length_stack_live)
  then show "stack_is_full st \<longleftrightarrow> 32768 \<le> length (stack_live st)"
    by (auto simp: stack_is_full_def)
  show "stack_is_empty st \<longleftrightarrow> stack_live st = []"
    using p by (auto simp: stack_is_empty_def stack_live_def)
next
  assume a: "- 1 \<le> stack_position st \<and> \<not> stack_is_full st"
  then have b: "in_bounds STACK_SIZE (stack_position st + 1)"
    by (simp add: in_bounds_def stack_is_full_def)
  have c: "map ((stack_contents st)(stack_position st + 1 := v)) [0..stack_position st]
      = map (stack_contents st) [0..stack_position st]"
    by (rule map_cong) auto
  show "let st1 = st\<lparr>stack_position := stack_position st + 1,
                     stack_contents := (stack_contents st)(stack_position st + 1 := v)\<rparr>;
           st2 = st1\<lparr>stack_position := stack_position st\<rparr>
       in stack_push st v = Inr st1 \<and> stack_live st1 = stack_live st @ [v] \<and>
          stack_pop st1 = Inr (v, st2) \<and> stack_live st2 = stack_live st"
    using a b c stack_live_push [of "stack_position st" "stack_contents st" v]
    by (simp add: Let_def stack_push_def stack_pop_def stack_is_empty_def stack_live_def)
next
  assume "stack_is_empty st"
  then show "stack_pop st = Inl (Aborted ''Function stack_pop() failed!'' [])"
    by (simp add: stack_pop_def vm_fail_def)
next
  assume "stack_is_full st"
  then show "stack_push st v = Inl (Aborted ''Function %s() failed!'' [S ''stack_push''])"
    by (simp add: stack_push_def vm_fail_def)
qed

theorem stack_lifo_witness:
  "stack_is_empty (stack_init (globals [])) \<and> \<not> stack_is_full (stack_init (globals [])) \<and>
   stack_push (stack_init (globals [])) 7
     = Inr ((globals [])\<lparr>stack_position := 0, stack_contents := (\<lambda>i. 0)(0 := 7)\<rparr>) \<and>
   stack_pop ((globals [])\<lparr>stack_position := 0, stack_contents := (\<lambda>i. 0)(0 := 7)\<rparr>)
     = Inr (7, (globals [])\<lparr>stack_position := - 1, stack_contents := (\<lambda>i. 0)(0 := 7)\<rparr>) \<and>
   stack_pop (stack_init (globals [])) = Inl (Aborted ''Function stack_pop() failed!'' []) \<and>
   stack_is_full ((globals [])\<lparr>stack_position := 32767\<rparr>) \<and>
   stack_push ((globals [])\<lparr>stack_position := 32767\<rparr>) 7
     = Inl (Aborted ''Function %s() failed!'' [S ''stack_push''])"
  using stack_lifo [of "stack_init (globals [])" 7]
    stack_lifo [of "(globals [])\<lparr>stack_position := 32767\<rparr>" 7]
  by (simp add: stack_init_def globals_def stack_is_empty_def stack_is_full_def Let_def)

section \<open>The range of stored words\<close>

lemma val_get2_eq_Inr:
  "val_get2 lr st x y = Inr p \<longleftrightarrow> val_get st x = Inr (fst p) \<and> val_get st y = Inr (snd p)"
  by (cases p) (auto simp: val_get2_def and_then_eq_Inr)

lemma uint_word_of_int_u16:
  "0 \<le> k \<Longrightarrow> k < 65536 \<Longrightarrow> uint (word_of_int k :: u16) = k"
  by (simp add: uint_word_of_int take_bit_int_eq_self)

lemma rs_ok_pc [simp]: "rs_ok (st\<lparr>pc := x\<rparr>) = rs_ok st"
  by (simp add: rs_ok_def)

lemma rs_ok_stdin [simp]: "rs_ok (st\<lparr>stdin := x\<rparr>) = rs_ok st"
  by (simp add: rs_ok_def)

lemma rs_ok_stdout [simp]: "rs_ok (st\<lparr>stdout := x\<rparr>) = rs_ok st"
  by (simp add: rs_ok_def)

lemma rs_ok_stack_position [simp]: "rs_ok (st\<lparr>stack_position := x\<rparr>) = rs_ok st"
  by (simp add: rs_ok_def)

lemma rs_ok_reg_read:
  "rs_ok st \<Longrightarrow> reg_read st x = Inr v \<Longrightarrow> uint v \<le> 32767"
  by (auto simp: reg_read_def rs_ok_def in_bounds_def split: if_splits)

lemma rs_ok_val_get:
  "rs_ok st \<Longrightarrow> val_get st x = Inr v \<Longrightarrow> uint v \<le> 32767"
  by (auto simp: val_get_def vm_fail_def split: if_splits dest: rs_ok_reg_read)

lemma rs_ok_reg_write:
  "rs_ok st \<Longrightarrow> uint v \<le> 32767 \<Longrightarrow> reg_write st a v = Inr st' \<Longrightarrow> rs_ok st'"
  by (auto simp: reg_write_def vm_fail_def rs_ok_def split: if_splits)

lemma rs_ok_memory [simp]: "rs_ok (st\<lparr>memory := x\<rparr>) = rs_ok st"
  by (simp add: rs_ok_def)

lemma rs_ok_mem_write: "rs_ok st \<Longrightarrow> mem_write st x v = Inr st' \<Longrightarrow> rs_ok st'"
  by (auto simp: mem_write_def split: if_splits)

lemma rs_ok_stack_push:
  "rs_ok st \<Longrightarrow> uint v \<le> 32767 \<Longrightarrow> stack_push st v = Inr st' \<Longrightarrow> rs_ok st'"
  by (auto simp: stack_push_def vm_fail_def rs_ok_def split: if_splits)

lemma rs_ok_stack_pop:
  "rs_ok st \<Longrightarrow> stack_pop st = Inr (v, st') \<Longrightarrow> uint v \<le> 32767 \<and> rs_ok st'"
  by (auto simp: stack_pop_def vm_fail_def rs_ok_def in_bounds_def split: if_splits)

lemma rs_ok_pc_add: "rs_ok st \<Longrightarrow> pc_add n st = Inr st' \<Longrightarrow> rs_ok st'"
  by (auto simp: pc_add_def)

lemma rs_ok_pc_set: "rs_ok st \<Longrightarrow> pc_set st t = Inr st' \<Longrightarrow> rs_ok st'"
  by (auto simp: pc_set_def)


lemma ok_store:
  assumes "rs_ok st" and "uint v \<le> 32767"
    and "and_then (reg_write st a v) (pc_add n) = Inr st'"
  shows "rs_ok st'"
proof -
  from assms(3) obtain s where s: "reg_write st a v = Inr s" and p: "pc_add n s = Inr st'"
    by (auto simp: and_then_eq_Inr)
  from assms(1,2) s have "rs_ok s" by (rule rs_ok_reg_write)
  then show ?thesis using p by (rule rs_ok_pc_add)
qed

lemma ok_binop:
  assumes ok: "rs_ok st"
    and ex: "and_then (and_then (val_get2 lr st b c) (\<lambda>(vb, vc). f vb vc)) (pc_add n) = Inr st'"
    and f: "\<And>vb vc s. uint vb \<le> 32767 \<Longrightarrow> uint vc \<le> 32767 \<Longrightarrow> f vb vc = Inr s \<Longrightarrow> rs_ok s"
  shows "rs_ok st'"
proof -
  from ex obtain s where s: "and_then (val_get2 lr st b c) (\<lambda>(vb, vc). f vb vc) = Inr s"
    and p: "pc_add n s = Inr st'"
    by (auto simp: and_then_eq_Inr)
  from s obtain q where q: "val_get2 lr st b c = Inr q" and fq: "f (fst q) (snd q) = Inr s"
    by (auto simp: and_then_eq_Inr)
  from q have "val_get st b = Inr (fst q)" and "val_get st c = Inr (snd q)"
    by (simp_all add: val_get2_eq_Inr)
  with ok have "uint (fst q) \<le> 32767" and "uint (snd q) \<le> 32767"
    by (auto dest: rs_ok_val_get)
  then have "rs_ok s" using fq by (rule f)
  then show ?thesis using p by (rule rs_ok_pc_add)
qed


lemma word_small: "0 \<le> k \<Longrightarrow> k \<le> 32767 \<Longrightarrow> uint (word_of_int k :: u16) \<le> 32767"
  by (simp add: uint_word_of_int_u16)

lemma ok_unop:
  assumes ok: "rs_ok st"
    and ex: "and_then (and_then (val_get st b) f) (pc_add n) = Inr st'"
    and f: "\<And>vb s. uint vb \<le> 32767 \<Longrightarrow> f vb = Inr s \<Longrightarrow> rs_ok s"
  shows "rs_ok st'"
proof -
  from ex obtain s where s: "and_then (val_get st b) f = Inr s" and p: "pc_add n s = Inr st'"
    by (auto simp: and_then_eq_Inr)
  from s obtain vb where vb: "val_get st b = Inr vb" and fq: "f vb = Inr s"
    by (auto simp: and_then_eq_Inr)
  from ok vb have "uint vb \<le> 32767" by (rule rs_ok_val_get)
  then have "rs_ok s" using fq by (rule f)
  then show ?thesis using p by (rule rs_ok_pc_add)
qed

lemma ok_jump:
  assumes ok: "rs_ok st" and ex: "and_then (val_get st x) (pc_set st) = Inr st'"
  shows "rs_ok st'"
  using assms by (auto simp: and_then_eq_Inr pc_set_def)

lemma ok_set:
  assumes "rs_ok st" and "operation_exec lr st 1 a b c = Inr st'"
  shows "rs_ok st'"
proof -
  from assms(2) have "and_then (and_then (reg_read st b) (reg_write st a)) (pc_add 3) = Inr st'"
    by (simp add: operation_exec_def)
  then obtain v s where v: "reg_read st b = Inr v" and s: "reg_write st a v = Inr s"
    and p: "pc_add 3 s = Inr st'"
    by (auto simp: and_then_eq_Inr)
  from assms(1) v have "uint v \<le> 32767" by (rule rs_ok_reg_read)
  with assms(1) have "rs_ok s" using s by (rule rs_ok_reg_write)
  then show ?thesis using p by (rule rs_ok_pc_add)
qed

lemma ok_push:
  assumes "rs_ok st" and "operation_exec lr st 2 a b c = Inr st'"
  shows "rs_ok st'"
proof (rule ok_unop [OF assms(1)])
  show "and_then (and_then (val_get st a) (stack_push st)) (pc_add 2) = Inr st'"
    using assms(2) by (simp add: operation_exec_def)
  fix vb s
  assume "uint vb \<le> 32767" and "stack_push st vb = Inr s"
  with assms(1) show "rs_ok s" by (rule rs_ok_stack_push)
qed

lemma ok_pop:
  assumes "rs_ok st" and "operation_exec lr st 3 a b c = Inr st'"
  shows "rs_ok st'"
proof -
  from assms(2) have
    "and_then (and_then (stack_pop st) (\<lambda>(v, st1). reg_write st1 a v)) (pc_add 2) = Inr st'"
    by (simp add: operation_exec_def)
  then obtain v st1 s where v: "stack_pop st = Inr (v, st1)" and s: "reg_write st1 a v = Inr s"
    and p: "pc_add 2 s = Inr st'"
    by (auto simp: and_then_eq_Inr)
  from assms(1) v have "uint v \<le> 32767 \<and> rs_ok st1" by (rule rs_ok_stack_pop)
  then have "rs_ok s" using s by (auto elim: rs_ok_reg_write)
  then show ?thesis using p by (rule rs_ok_pc_add)
qed

lemma ok_eq:
  assumes "rs_ok st" and "operation_exec lr st 4 a b c = Inr st'"
  shows "rs_ok st'"
proof (rule ok_binop [OF assms(1)])
  show "and_then (and_then (val_get2 lr st b c)
          (\<lambda>(vb, vc). reg_write st a (if vb = vc then 1 else 0))) (pc_add 4) = Inr st'"
    using assms(2) by (simp add: operation_exec_def)
  fix vb vc :: u16 and s
  assume "reg_write st a (if vb = vc then 1 else 0) = Inr s"
  moreover have "uint (if vb = vc then 1 else 0 :: u16) \<le> 32767" by simp
  ultimately show "rs_ok s" using assms(1) by (auto elim: rs_ok_reg_write)
qed

lemma ok_gt:
  assumes "rs_ok st" and "operation_exec lr st 5 a b c = Inr st'"
  shows "rs_ok st'"
proof (rule ok_binop [OF assms(1)])
  show "and_then (and_then (val_get2 lr st b c)
          (\<lambda>(vb, vc). reg_write st a (if uint vb > uint vc then 1 else 0))) (pc_add 4) = Inr st'"
    using assms(2) by (simp add: operation_exec_def)
  fix vb vc :: u16 and s
  assume "reg_write st a (if uint vb > uint vc then 1 else 0) = Inr s"
  moreover have "uint (if uint vb > uint vc then 1 else 0 :: u16) \<le> 32767" by simp
  ultimately show "rs_ok s" using assms(1) by (auto elim: rs_ok_reg_write)
qed

lemma ok_jmp:
  assumes "rs_ok st" and "operation_exec lr st 6 a b c = Inr st'"
  shows "rs_ok st'"
  using assms by (auto simp: operation_exec_def elim: ok_jump)

lemma ok_jt:
  assumes "rs_ok st" and "operation_exec lr st 7 a b c = Inr st'"
  shows "rs_ok st'"
proof (cases "val_get st a")
  case (Inl e)
  with assms(2) show ?thesis by (simp add: operation_exec_def)
next
  case (Inr va)
  with assms(2) have
    "(if va \<noteq> 0 then and_then (val_get st b) (pc_set st) else pc_add 3 st) = Inr st'"
    by (simp add: operation_exec_def)
  then show ?thesis
    using assms(1) by (auto split: if_splits elim: ok_jump rs_ok_pc_add)
qed

lemma ok_jf:
  assumes "rs_ok st" and "operation_exec lr st 8 a b c = Inr st'"
  shows "rs_ok st'"
proof (cases "val_get st a")
  case (Inl e)
  with assms(2) show ?thesis by (simp add: operation_exec_def)
next
  case (Inr va)
  with assms(2) have
    "(if va = 0 then and_then (val_get st b) (pc_set st) else pc_add 3 st) = Inr st'"
    by (simp add: operation_exec_def)
  then show ?thesis
    using assms(1) by (auto split: if_splits elim: ok_jump rs_ok_pc_add)
qed

lemma ok_add:
  assumes "rs_ok st" and "operation_exec lr st 9 a b c = Inr st'"
  shows "rs_ok st'"
proof (rule ok_binop [OF assms(1)])
  show "and_then (and_then (val_get2 lr st b c)
          (\<lambda>(vb, vc). reg_write st a (word_of_int ((uint vb + uint vc) mod ARCH_MODULO))))
          (pc_add 4) = Inr st'"
    using assms(2) by (simp add: operation_exec_def)
  fix vb vc :: u16 and s
  assume "reg_write st a (word_of_int ((uint vb + uint vc) mod ARCH_MODULO)) = Inr s"
  moreover have "uint (word_of_int ((uint vb + uint vc) mod ARCH_MODULO) :: u16) \<le> 32767"
    by (rule word_small) simp_all
  ultimately show "rs_ok s" using assms(1) by (auto elim: rs_ok_reg_write)
qed

lemma ok_mult:
  assumes "rs_ok st" and "operation_exec lr st 10 a b c = Inr st'"
  shows "rs_ok st'"
proof (rule ok_binop [OF assms(1)])
  show "and_then (and_then (val_get2 lr st b c)
          (\<lambda>(vb, vc). if uint vb * uint vc > INT_MAX then Inl Undefined
             else reg_write st a (word_of_int ((uint vb * uint vc) mod ARCH_MODULO))))
          (pc_add 4) = Inr st'"
    using assms(2) by (simp add: operation_exec_def)
  fix vb vc :: u16 and s
  assume "(if uint vb * uint vc > INT_MAX then Inl Undefined
             else reg_write st a (word_of_int ((uint vb * uint vc) mod ARCH_MODULO))) = Inr s"
  then have "reg_write st a (word_of_int ((uint vb * uint vc) mod ARCH_MODULO)) = Inr s"
    by (simp split: if_splits)
  moreover have "uint (word_of_int ((uint vb * uint vc) mod ARCH_MODULO) :: u16) \<le> 32767"
    by (rule word_small) simp_all
  ultimately show "rs_ok s" using assms(1) by (auto elim: rs_ok_reg_write)
qed

lemma ok_mod:
  assumes "rs_ok st" and "operation_exec lr st 11 a b c = Inr st'"
  shows "rs_ok st'"
proof (rule ok_binop [OF assms(1)])
  show "and_then (and_then (val_get2 lr st b c)
          (\<lambda>(vb, vc). if uint vc = 0 then Inl Undefined
             else reg_write st a (word_of_int (uint vb mod uint vc))))
          (pc_add 4) = Inr st'"
    using assms(2) by (simp add: operation_exec_def)
  fix vb vc :: u16 and s
  assume b: "uint vb \<le> 32767"
    and "(if uint vc = 0 then Inl Undefined
          else reg_write st a (word_of_int (uint vb mod uint vc))) = Inr s"
  then have nz: "uint vc \<noteq> 0" and w: "reg_write st a (word_of_int (uint vb mod uint vc)) = Inr s"
    by (simp_all split: if_splits)
  have "0 \<le> uint vc" by simp
  with nz have "0 < uint vc" by linarith
  then have "0 \<le> uint vb mod uint vc" and "uint vb mod uint vc \<le> uint vb"
    by (simp_all add: zmod_le_nonneg_dividend)
  with b have "uint (word_of_int (uint vb mod uint vc) :: u16) \<le> 32767"
    by (intro word_small) simp_all
  with w show "rs_ok s" using assms(1) by (auto elim: rs_ok_reg_write)
qed

lemma ok_and:
  assumes "rs_ok st" and "operation_exec lr st 12 a b c = Inr st'"
  shows "rs_ok st'"
proof (rule ok_binop [OF assms(1)])
  show "and_then (and_then (val_get2 lr st b c)
          (\<lambda>(vb, vc). reg_write st a (word_of_int (uint vb AND uint vc)))) (pc_add 4) = Inr st'"
    using assms(2) by (simp add: operation_exec_def)
  fix vb vc :: u16 and s
  assume b: "uint vb \<le> 32767" and w: "reg_write st a (word_of_int (uint vb AND uint vc)) = Inr s"
  have "uint vb AND uint vc \<le> uint vb" by simp
  with b have "uint (word_of_int (uint vb AND uint vc) :: u16) \<le> 32767"
    by (intro word_small) simp_all
  with w show "rs_ok s" using assms(1) by (auto elim: rs_ok_reg_write)
qed

lemma ok_or:
  assumes "rs_ok st" and "operation_exec lr st 13 a b c = Inr st'"
  shows "rs_ok st'"
proof (rule ok_binop [OF assms(1)])
  show "and_then (and_then (val_get2 lr st b c)
          (\<lambda>(vb, vc). reg_write st a (word_of_int (uint vb OR uint vc)))) (pc_add 4) = Inr st'"
    using assms(2) by (simp add: operation_exec_def)
  fix vb vc :: u16 and s
  assume b: "uint vb \<le> 32767" and c: "uint vc \<le> 32767"
    and w: "reg_write st a (word_of_int (uint vb OR uint vc)) = Inr s"
  have "uint vb OR uint vc < 2 ^ 15"
    using b c by (intro OR_upper) simp_all
  then have "uint (word_of_int (uint vb OR uint vc) :: u16) \<le> 32767"
    by (intro word_small) simp_all
  with w show "rs_ok s" using assms(1) by (auto elim: rs_ok_reg_write)
qed

lemma ok_not:
  assumes "rs_ok st" and "operation_exec lr st 14 a b c = Inr st'"
  shows "rs_ok st'"
proof (rule ok_unop [OF assms(1)])
  show "and_then (and_then (val_get st b)
          (\<lambda>vb. reg_write st a (word_of_int (NOT (uint vb) AND 0x7fff)))) (pc_add 3) = Inr st'"
    using assms(2) by (simp add: operation_exec_def)
  fix vb :: u16 and s
  assume w: "reg_write st a (word_of_int (NOT (uint vb) AND 0x7fff)) = Inr s"
  have "uint (word_of_int (NOT (uint vb) AND 0x7fff) :: u16) \<le> 32767"
    by (intro word_small) simp_all
  with w show "rs_ok s" using assms(1) by (auto elim: rs_ok_reg_write)
qed

lemma ok_rmem:
  assumes "rs_ok st" and "operation_exec lr st 15 a b c = Inr st'"
    and "\<forall>vb. val_get st b = Inr vb \<longrightarrow> uint (memory st (uint vb)) \<le> 32767"
  shows "rs_ok st'"
proof -
  from assms(2) have
    "and_then (and_then (and_then (val_get st b) (mem_read st)) (reg_write st a)) (pc_add 3)
       = Inr st'"
    by (simp add: operation_exec_def)
  then obtain vb v s where vb: "val_get st b = Inr vb" and v: "mem_read st vb = Inr v"
    and s: "reg_write st a v = Inr s" and p: "pc_add 3 s = Inr st'"
    by (auto simp: and_then_eq_Inr)
  from v have "v = memory st (uint vb)"
    by (simp add: mem_read_def split: if_splits)
  with assms(3) vb have "uint v \<le> 32767" by simp
  with assms(1) have "rs_ok s" using s by (rule rs_ok_reg_write)
  then show ?thesis using p by (rule rs_ok_pc_add)
qed

lemma ok_wmem:
  assumes "rs_ok st" and "operation_exec lr st 16 a b c = Inr st'"
  shows "rs_ok st'"
proof (rule ok_binop [OF assms(1)])
  show "and_then (and_then (val_get2 lr st a b) (\<lambda>(va, vb). mem_write st va vb)) (pc_add 3)
          = Inr st'"
    using assms(2) by (simp add: operation_exec_def)
  fix va vb :: u16 and s
  assume "mem_write st va vb = Inr s"
  with assms(1) show "rs_ok s" by (rule rs_ok_mem_write)
qed

lemma ok_call:
  assumes "rs_ok st" and "0 \<le> pc st" and "pc st + 2 \<le> 32767"
    and "operation_exec lr st 17 a b c = Inr st'"
  shows "rs_ok st'"
proof -
  from assms(4) obtain st1 where s: "stack_push st (word_of_int (pc st + 2)) = Inr st1"
    and j: "and_then (val_get st1 a) (pc_set st1) = Inr st'"
    by (auto simp: operation_exec_def and_then_eq_Inr)
  have "uint (word_of_int (pc st + 2) :: u16) \<le> 32767"
    using assms(2,3) by (intro word_small) simp_all
  with assms(1) have "rs_ok st1" using s by (rule rs_ok_stack_push)
  then show ?thesis using j by (rule ok_jump)
qed

lemma ok_ret:
  assumes "rs_ok st" and "operation_exec lr st 18 a b c = Inr st'"
  shows "rs_ok st'"
proof -
  from assms(2) obtain v st1 where v: "stack_pop st = Inr (v, st1)" and p: "pc_set st1 v = Inr st'"
    by (auto simp: operation_exec_def and_then_eq_Inr)
  from assms(1) v have "uint v \<le> 32767 \<and> rs_ok st1" by (rule rs_ok_stack_pop)
  then show ?thesis using p by (auto elim: rs_ok_pc_set)
qed

lemma ok_out:
  assumes "rs_ok st" and "operation_exec lr st 19 a b c = Inr st'"
  shows "rs_ok st'"
  using assms by (auto simp: operation_exec_def and_then_eq_Inr pc_add_def putchar_def)

lemma ok_in:
  assumes "rs_ok st" and "stdin st \<noteq> []" and "operation_exec lr st 20 a b c = Inr st'"
  shows "rs_ok st'"
proof -
  from assms(2) obtain ch rest where i: "stdin st = ch # rest"
    by (cases "stdin st") auto
  then have g: "getchar st = (uint ch, st\<lparr>stdin := rest\<rparr>)"
    by (simp add: getchar_def)
  have "uint ch \<le> 255" using uint_bounded [of ch] by simp
  then have v: "uint (word_of_int (uint ch) :: u16) \<le> 32767"
    by (intro word_small) simp_all
  have s: "rs_ok (st\<lparr>stdin := rest\<rparr>)" using assms(1) by simp
  have "and_then (reg_write (st\<lparr>stdin := rest\<rparr>) a (word_of_int (uint ch))) (pc_add 2)
      = Inr st'"
    using assms(3) g by (simp add: operation_exec_def)
  with s v show ?thesis by (rule ok_store)
qed

lemma ok_noop:
  assumes "rs_ok st" and "operation_exec lr st 21 a b c = Inr st'"
  shows "rs_ok st'"
  using assms by (auto simp: operation_exec_def pc_add_def)

lemma operation_exec_Inr_opcode:
  assumes "operation_exec lr st opcode a b c = Inr st'"
  shows "opcode \<in> {1, 2, 3, 4, 5, 6, 7, 8, 9, 10, 11, 12, 13, 14, 15, 16, 17, 18, 19, 20, 21}"
proof (rule ccontr)
  assume "opcode \<notin> {1, 2, 3, 4, 5, 6, 7, 8, 9, 10, 11, 12, 13, 14, 15, 16, 17, 18, 19, 20, 21}"
  then have "operation_exec lr st opcode a b c = Inl Halted \<or>
    operation_exec lr st opcode a b c = vm_fail ''Function %s() failed! [opcode:%d] [pc:%d]''
            [S ''operation_exec'', D (uint opcode), D (pc st)]"
    by (simp add: operation_exec_def)
  with assms show False by (auto simp: vm_fail_def)
qed

lemma operation_exec_memory_same:
  assumes "operation_exec lr st opcode a b c = Inr st'" and "opcode \<noteq> 16"
  shows "memory st' = memory st"
proof -
  from assms(1) have "opcode \<in> {1, 2, 3, 4, 5, 6, 7, 8, 9, 10, 11, 12, 13, 14, 15, 16, 17, 18, 19, 20, 21}"
    by (rule operation_exec_Inr_opcode)
  then show ?thesis
    using assms
    by (elim insertE emptyE)
      (auto simp: operation_exec_def and_then_eq_Inr prim_defs
        split: if_splits list.splits prod.splits)
qed

lemma operation_exec_wmem:
  assumes "operation_exec lr st 16 a b c = Inr st'"
  shows "\<exists>(va :: u16) vb. val_get st b = Inr vb \<and> memory st' = (memory st)(uint va := vb)"
proof -
  from assms have
    "and_then (and_then (val_get2 lr st a b) (\<lambda>(va, vb). mem_write st va vb)) (pc_add 3) = Inr st'"
    by (simp add: operation_exec_def)
  then obtain q s where q: "val_get2 lr st a b = Inr q"
    and w: "mem_write st (fst q) (snd q) = Inr s" and p: "pc_add 3 s = Inr st'"
    by (auto simp: and_then_eq_Inr)
  from q have "val_get st b = Inr (snd q)" by (simp add: val_get2_eq_Inr)
  moreover from w p have "memory st' = (memory st)(uint (fst q) := snd q)"
    by (auto simp: mem_write_def pc_add_def split: if_splits)
  ultimately show ?thesis by blast
qed

text \<open>The machine that \<^verbatim>\<open>main\<close> hands to the engine has its registers and its stack within
  range, whatever the image holds.\<close>

lemma rs_ok_loaded:
  assumes "binary_init (globals inp) argv = (ret, st0)"
    and "binary_load fs (stack_init (mem_init (reg_init st0))) = Inr st1"
  shows "rs_ok (st1\<lparr>pc := 0\<rparr>)"
proof -
  from assms(1) have "rs_ok (stack_init (mem_init (reg_init st0)))"
    by (auto simp: binary_init_def rs_ok_def globals_def stack_init_def mem_init_def
        reg_init_def split: if_splits)
  moreover from assms(2) have "registers st1 = registers (stack_init (mem_init (reg_init st0)))"
    and "stack_contents st1 = stack_contents (stack_init (mem_init (reg_init st0)))"
    by (auto simp: binary_load_def vm_fail_def split: option.splits if_splits)
  ultimately show ?thesis by (simp add: rs_ok_def)
qed

text \<open>
  C3, as the code has it. If every slot of the registers and of the stack is within
  0..32767, an operation that completes leaves them so, and every memory word it changes
  is within 0..32767 afterwards, provided that \<open>rmem\<close> reads a memory word within 0..32767,
  that a \<open>call\<close> is executed at a program counter \<open>p\<close> with \<open>0 \<le> p\<close> and
  \<open>p + 2 \<le> 32767\<close> (the engine fetches at no other) and that, for \<open>in\<close>, standard input
  has a byte left. Nothing is asked of the memory otherwise: it holds the words of the
  image as they were loaded.
\<close>

theorem rs_ok_preserved:
  assumes ok: "rs_ok st"
    and ex: "operation_exec lr st opcode a b c = Inr st'"
    and rmem: "opcode = 15 \<longrightarrow>
                 (\<forall>vb. val_get st b = Inr vb \<longrightarrow> uint (memory st (uint vb)) \<le> 32767)"
    and pc: "opcode = 17 \<longrightarrow> 0 \<le> pc st \<and> pc st + 2 \<le> 32767"
    and inp: "opcode = 20 \<longrightarrow> stdin st \<noteq> []"
  shows "rs_ok st' \<and> (\<forall>i. memory st' i \<noteq> memory st i \<longrightarrow> uint (memory st' i) \<le> 32767)"
proof -
  from ex have "opcode \<in> {1, 2, 3, 4, 5, 6, 7, 8, 9, 10, 11, 12, 13, 14, 15, 16, 17, 18, 19, 20, 21}"
    by (rule operation_exec_Inr_opcode)
  then consider "opcode = 1" | "opcode = 2" | "opcode = 3" | "opcode = 4" | "opcode = 5"
    | "opcode = 6" | "opcode = 7" | "opcode = 8" | "opcode = 9" | "opcode = 10" | "opcode = 11"
    | "opcode = 12" | "opcode = 13" | "opcode = 14" | "opcode = 15" | "opcode = 16"
    | "opcode = 17" | "opcode = 18" | "opcode = 19" | "opcode = 20" | "opcode = 21"
    by blast
  then have r: "rs_ok st'"
  proof cases
    case 1 with ok ex show ?thesis by (auto elim: ok_set)
  next
    case 2 with ok ex show ?thesis by (auto elim: ok_push)
  next
    case 3 with ok ex show ?thesis by (auto elim: ok_pop)
  next
    case 4 with ok ex show ?thesis by (auto elim: ok_eq)
  next
    case 5 with ok ex show ?thesis by (auto elim: ok_gt)
  next
    case 6 with ok ex show ?thesis by (auto elim: ok_jmp)
  next
    case 7 with ok ex show ?thesis by (auto elim: ok_jt)
  next
    case 8 with ok ex show ?thesis by (auto elim: ok_jf)
  next
    case 9 with ok ex show ?thesis by (auto elim: ok_add)
  next
    case 10 with ok ex show ?thesis by (auto elim: ok_mult)
  next
    case 11 with ok ex show ?thesis by (auto elim: ok_mod)
  next
    case 12 with ok ex show ?thesis by (auto elim: ok_and)
  next
    case 13 with ok ex show ?thesis by (auto elim: ok_or)
  next
    case 14 with ok ex show ?thesis by (auto elim: ok_not)
  next
    case 15 with ok ex rmem show ?thesis by (auto elim: ok_rmem)
  next
    case 16 with ok ex show ?thesis by (auto elim: ok_wmem)
  next
    case 17 with ok pc ex show ?thesis by (auto elim: ok_call)
  next
    case 18 with ok ex show ?thesis by (auto elim: ok_ret)
  next
    case 19 with ok ex show ?thesis by (auto elim: ok_out)
  next
    case 20 with ok inp ex show ?thesis by (auto elim: ok_in)
  next
    case 21 with ok ex show ?thesis by (auto elim: ok_noop)
  qed
  have m: "uint (memory st' i) \<le> 32767" if "memory st' i \<noteq> memory st i" for i
  proof (cases "opcode = 16")
    case False
    with ex have "memory st' = memory st" by (rule operation_exec_memory_same)
    with that show ?thesis by simp
  next
    case True
    with ex have "operation_exec lr st 16 a b c = Inr st'" by simp
    from operation_exec_wmem [OF this] obtain va :: u16 and vb where vb: "val_get st b = Inr vb"
      and w: "memory st' = (memory st)(uint va := vb)"
      by blast
    from ok vb have "uint vb \<le> 32767" by (rule rs_ok_val_get)
    with w that show ?thesis by (auto split: if_splits)
  qed
  from r m show ?thesis by blast
qed

text \<open>
  The image of the specification's own scenario, \<open>add\<close> of 4 and 0 into register 0, in
  memory as it is loaded: its second word is 32768, so the memory is not within 0..32767,
  and the round of the engine that executes it keeps the registers and the stack within
  range.
\<close>

theorem rs_ok_preserved_witness:
  "\<not> words_ok ((stack_init (mem_init (reg_init (globals []))))
       \<lparr>memory := (\<lambda>i. 0)(0 := 9, 1 := 32768, 2 := 4), binary_length := 4\<rparr>) \<and>
   binary_exec_body True ((stack_init (mem_init (reg_init (globals []))))
       \<lparr>memory := (\<lambda>i. 0)(0 := 9, 1 := 32768, 2 := 4), binary_length := 4\<rparr>) =
     Inr ((stack_init (mem_init (reg_init (globals []))))
       \<lparr>memory := (\<lambda>i. 0)(0 := 9, 1 := 32768, 2 := 4), binary_length := 4,
        registers := (\<lambda>i. 0)(0 := 4), pc := 4\<rparr>) \<and>
   rs_ok ((stack_init (mem_init (reg_init (globals []))))
       \<lparr>memory := (\<lambda>i. 0)(0 := 9, 1 := 32768, 2 := 4), binary_length := 4,
        registers := (\<lambda>i. 0)(0 := 4), pc := 4\<rparr>)"
proof -
  let ?st = "(stack_init (mem_init (reg_init (globals []))))
       \<lparr>memory := (\<lambda>i. 0)(0 := 9, 1 := 32768, 2 := 4), binary_length := 4\<rparr>"
  let ?st' = "?st\<lparr>registers := (\<lambda>i. 0)(0 := 4), pc := 4\<rparr>"
  have bad: "\<not> words_ok ?st"
  proof
    assume "words_ok ?st"
    then have "\<forall>i \<in> {0..<MEMORY_SIZE}. uint (memory ?st i) \<le> 32767"
      by (simp add: words_ok_def)
    then have "uint (memory ?st 1) \<le> 32767"
      by (rule bspec) simp
    then show False by simp
  qed
  have ok: "rs_ok ?st"
    by (simp add: rs_ok_def globals_def stack_init_def mem_init_def reg_init_def)
  have ex: "operation_exec True ?st 9 32768 4 0 = Inr ?st'"
    by (simp add: operation_exec_def val_get2_def val_get_def reg_write_def pc_add_def
        globals_def stack_init_def mem_init_def reg_init_def)
  have body: "binary_exec_body True ?st = Inr ?st'"
    by (simp add: binary_exec_body_def in_bounds_def operation_exec_def val_get2_def
        val_get_def reg_write_def pc_add_def globals_def stack_init_def mem_init_def
        reg_init_def)
  have "rs_ok ?st'"
    using rs_ok_preserved [OF ok ex] by simp
  with bad body show ?thesis by simp
qed

text \<open>
  C3, as claimed, fails. At the end of input \<^verbatim>\<open>getchar\<close> returns \<open>-1\<close>, which \<open>in\<close> stores
  as 65535: the zeroed machine satisfies the invariant, and the machine after \<open>in\<close> does
  not. In a whole run the invariant does not hold from the start either: the image with
  the words 20 and 32768 (\<open>in\<close> to register 0) is loaded as it is, so memory holds 32768
  before the first step, and after it register 0 holds 65535. A word of the image that
  is 32768 or more reaches a register through \<open>rmem\<close> as well: the image with the words 15,
  32768 and 1 (\<open>rmem\<close> of address 1 to register 0) leaves 32768 in register 0.
\<close>

theorem words_ok_counterexample:
  "words_ok (stack_init (mem_init (reg_init (globals [])))) \<and>
   operation_exec True (stack_init (mem_init (reg_init (globals [])))) 20 32768 0 0 =
     Inr ((stack_init (mem_init (reg_init (globals []))))
            \<lparr>registers := (\<lambda>i. 0)(0 := 65535), pc := 2\<rparr>) \<and>
   \<not> words_ok ((stack_init (mem_init (reg_init (globals []))))
            \<lparr>registers := (\<lambda>i. 0)(0 := 65535), pc := 2\<rparr>) \<and>
   (case main (\<lambda>k. True) (Suc 0) [''vm'', ''in.bin''] (\<lambda>path. Some [20, 0, 0, 128]) [] of
      Inl e \<Rightarrow> False
    | Inr st \<Rightarrow> uint (memory st 1) = 32768 \<and> uint (registers st 0) = 65535) \<and>
   (case main (\<lambda>k. True) (Suc 0) [''vm'', ''rmem.bin''] (\<lambda>path. Some [15, 0, 0, 128, 1, 0]) [] of
      Inl e \<Rightarrow> False
    | Inr st \<Rightarrow> uint (registers st 0) = 32768)"
proof -
  let ?st = "stack_init (mem_init (reg_init (globals [])))"
  have ok: "words_ok ?st"
    by (simp add: words_ok_def globals_def stack_init_def mem_init_def reg_init_def)
  have m: "(65535 :: u16) = - 1" by simp
  have u: "uint (- 1 :: u16) = 65535" unfolding m [symmetric] by simp
  have ex: "operation_exec True ?st 20 32768 0 0 =
      Inr (?st\<lparr>registers := (\<lambda>i. 0)(0 := 65535), pc := 2\<rparr>)"
    by (simp add: operation_exec_def getchar_def reg_write_def pc_add_def
        globals_def stack_init_def mem_init_def reg_init_def m)
  have "\<not> uint (registers (?st\<lparr>registers := (\<lambda>i. 0)(0 := 65535), pc := 2\<rparr>) 0) \<le> 32767"
    by simp
  then have bad: "\<not> words_ok (?st\<lparr>registers := (\<lambda>i. 0)(0 := 65535), pc := 2\<rparr>)"
    unfolding words_ok_def by (metis atLeastLessThan_iff order_refl zero_less_numeral)
  have run: "(case main (\<lambda>k. True) (Suc 0) [''vm'', ''in.bin''] (\<lambda>path. Some [20, 0, 0, 128]) [] of
      Inl e \<Rightarrow> False
    | Inr st \<Rightarrow> uint (memory st 1) = 32768 \<and> uint (registers st 0) = 65535)"
    by (simp add: main_def binary_init_def binary_load_def binary_exec_def
        binary_exec_body_def fread_word_def in_bounds_def operation_exec_def getchar_def
        reg_write_def pc_add_def globals_def stack_init_def mem_init_def reg_init_def u)
  have w: "uint (32768 :: u16) = 32768" by simp
  have run2: "(case main (\<lambda>k. True) (Suc 0) [''vm'', ''rmem.bin'']
        (\<lambda>path. Some [15, 0, 0, 128, 1, 0]) [] of
      Inl e \<Rightarrow> False
    | Inr st \<Rightarrow> uint (registers st 0) = 32768)"
    by (simp add: main_def binary_init_def binary_load_def binary_exec_def
        binary_exec_body_def fread_word_def in_bounds_def operation_exec_def val_get_def
        mem_read_def reg_write_def pc_add_def globals_def stack_init_def mem_init_def
        reg_init_def w)
  from ok ex bad run run2 show ?thesis by simp
qed

section \<open>The remainder\<close>

lemma val_get2_Inr:
  "val_get st x = Inr vx \<Longrightarrow> val_get st y = Inr vy \<Longrightarrow> val_get2 lr st x y = Inr (vx, vy)"
  by (simp add: val_get2_def)

lemma uint_mod_u16:
  "uint (word_of_int (uint (x :: u16) mod uint (y :: u16)) :: u16) = uint x mod uint y"
proof (cases "uint y = 0")
  case True
  then show ?thesis by simp
next
  case False
  moreover have "0 \<le> uint y" by simp
  ultimately have "0 < uint y" by linarith
  then have "0 \<le> uint x mod uint y \<and> uint x mod uint y < uint y"
    by simp
  then have "0 \<le> uint x mod uint y \<and> uint x mod uint y < 65536"
    using uint_u16_range [of y] by linarith
  then show ?thesis
    by (simp add: uint_word_of_int_u16)
qed

text \<open>
  C6, as the code has it. When both sources resolve, the divisor is not zero and \<open>a\<close> is a
  register address, \<open>mod\<close> stores the remainder of \<open>val(b)\<close> by \<open>val(c)\<close> in register \<open>a\<close>
  and advances \<open>pc\<close> by 4.
\<close>

theorem mod_nonzero:
  assumes "val_get st b = Inr vb" and "val_get st c = Inr vc" and "uint vc \<noteq> 0"
    and "32768 \<le> uint a" and "uint a \<le> 32775"
  shows "operation_exec lr st 11 a b c =
           Inr (st\<lparr>registers := (registers st)(uint a - 32768 := word_of_int (uint vb mod uint vc)),
                   pc := pc st + 4\<rparr>) \<and>
         uint (word_of_int (uint vb mod uint vc) :: u16) = uint vb mod uint vc"
  using assms
  by (simp add: operation_exec_def val_get2_Inr reg_write_def pc_add_def uint_mod_u16)

theorem mod_nonzero_witness:
  "operation_exec True (stack_init (mem_init (reg_init (globals [])))) 11 32768 7 3 =
     Inr ((stack_init (mem_init (reg_init (globals []))))\<lparr>registers := (\<lambda>i. 0)(0 := 1), pc := 4\<rparr>)"
  using mod_nonzero [of "stack_init (mem_init (reg_init (globals [])))" 7 7 3 3 32768 True]
  by (simp add: val_get_def globals_def stack_init_def mem_init_def reg_init_def)

text \<open>
  C6, as claimed, fails at a zero divisor: both sources resolve, and the remainder by zero
  that C leaves undefined is taken, whichever operand is resolved first. No register is
  written and \<open>pc\<close> does not advance.
\<close>

theorem mod_by_zero_counterexample:
  "val_get (stack_init (mem_init (reg_init (globals [])))) 1 = Inr 1 \<and>
   val_get (stack_init (mem_init (reg_init (globals [])))) 0 = Inr 0 \<and>
   operation_exec True (stack_init (mem_init (reg_init (globals [])))) 11 32768 1 0
     = Inl Undefined \<and>
   operation_exec False (stack_init (mem_init (reg_init (globals [])))) 11 32768 1 0
     = Inl Undefined"
  by (simp add: operation_exec_def val_get2_def val_get_def)

section \<open>Call and return\<close>

lemma val_get_registers:
  "registers st1 = registers st \<Longrightarrow> val_get st1 x = val_get st x"
  by (simp add: val_get_def reg_read_def)

text \<open>
  C7. A \<open>call\<close> executed at program counter \<open>p\<close> (not negative, with \<open>p + 2\<close> an
  \<^verbatim>\<open>unsigned short\<close>, as every program counter the engine fetches at is), on a stack that
  is not full and with a target that resolves, pushes \<open>p + 2\<close> and sets \<open>pc\<close> to the
  target; a \<open>ret\<close> executed next sets \<open>pc\<close> to \<open>p + 2\<close> and leaves the stack position
  and the slots in use as they were before the call, with registers and memory untouched.
\<close>

theorem call_then_ret:
  assumes "0 \<le> pc st" and "pc st + 2 \<le> 65535"
    and "- 1 \<le> stack_position st" and "\<not> stack_is_full st"
    and "val_get st a = Inr t"
  shows "let st1 = st\<lparr>stack_position := stack_position st + 1,
                     stack_contents :=
                       (stack_contents st)(stack_position st + 1 := word_of_int (pc st + 2)),
                     pc := uint t\<rparr>;
             st2 = st1\<lparr>stack_position := stack_position st, pc := pc st + 2\<rparr>
         in operation_exec lr st 17 a b c = Inr st1 \<and>
            uint (word_of_int (pc st + 2) :: u16) = pc st + 2 \<and>
            stack_live st1 = stack_live st @ [word_of_int (pc st + 2)] \<and>
            pc st1 = uint t \<and>
            operation_exec lr' st1 18 a' b' c' = Inr st2 \<and>
            pc st2 = pc st + 2 \<and>
            stack_position st2 = stack_position st \<and> stack_live st2 = stack_live st \<and>
            registers st2 = registers st \<and> memory st2 = memory st"
proof -
  let ?v = "word_of_int (pc st + 2) :: u16"
  let ?p = "st\<lparr>stack_position := stack_position st + 1,
               stack_contents := (stack_contents st)(stack_position st + 1 := ?v)\<rparr>"
  have b: "in_bounds STACK_SIZE (stack_position st + 1)"
    using assms(3,4) by (simp add: in_bounds_def stack_is_full_def)
  then have push: "stack_push st ?v = Inr ?p"
    using assms(4) by (simp add: stack_push_def)
  have "val_get ?p a = val_get st a"
    by (rule val_get_registers) simp
  with assms(5) push have call: "operation_exec lr st 17 a b c = Inr (?p\<lparr>pc := uint t\<rparr>)"
    by (simp add: operation_exec_def pc_set_def)
  have v: "uint ?v = pc st + 2"
    using assms(1,2) by (intro uint_word_of_int_u16) linarith+
  have live1: "stack_live (?p\<lparr>pc := uint t\<rparr>) = stack_live st @ [?v]"
    using assms(3) stack_live_push [of "stack_position st" "stack_contents st" ?v]
    by (simp add: stack_live_def)
  have "stack_pop (?p\<lparr>pc := uint t\<rparr>)
      = Inr (?v, ?p\<lparr>pc := uint t, stack_position := stack_position st\<rparr>)"
    using b assms(3) by (simp add: stack_pop_def stack_is_empty_def)
  then have ret: "operation_exec lr' (?p\<lparr>pc := uint t\<rparr>) 18 a' b' c'
      = Inr (?p\<lparr>pc := uint t, stack_position := stack_position st, pc := pc st + 2\<rparr>)"
    using v by (simp add: operation_exec_def pc_set_def)
  have "map ((stack_contents st)(stack_position st + 1 := ?v)) [0..stack_position st]
      = map (stack_contents st) [0..stack_position st]"
    by (rule map_cong) auto
  then have live2: "stack_live (?p\<lparr>pc := uint t, stack_position := stack_position st,
      pc := pc st + 2\<rparr>) = stack_live st"
    by (simp add: stack_live_def)
  from call v live1 ret live2 show ?thesis
    by (simp add: Let_def)
qed

theorem call_then_ret_witness:
  "operation_exec True ((stack_init (mem_init (reg_init (globals []))))\<lparr>pc := 10\<rparr>) 17 100 0 0
     = Inr ((globals [])\<lparr>stack_position := 0, stack_contents := (\<lambda>i. 0)(0 := 12), pc := 100\<rparr>) \<and>
   operation_exec True
       ((globals [])\<lparr>stack_position := 0, stack_contents := (\<lambda>i. 0)(0 := 12), pc := 100\<rparr>) 18 0 0 0
     = Inr ((globals [])\<lparr>stack_position := - 1, stack_contents := (\<lambda>i. 0)(0 := 12), pc := 12\<rparr>)"
  using call_then_ret [of "(stack_init (mem_init (reg_init (globals []))))\<lparr>pc := 10\<rparr>"
      100 100 True 0 0 True 0 0 0]
  by (simp add: Let_def val_get_def stack_is_full_def globals_def stack_init_def mem_init_def
      reg_init_def)

section \<open>The check of the program counter\<close>

lemma binary_exec_body_Inr:
  assumes "binary_exec_body lr st = Inr st'"
  shows "0 \<le> pc st' \<and> pc st' \<le> binary_length st'"
proof -
  from assms have f: "in_bounds MEMORY_SIZE (pc st) \<and> in_bounds MEMORY_SIZE (pc st + 3)"
    by (auto simp: binary_exec_body_def split: if_splits)
  show ?thesis
  proof (cases "operation_exec lr st (memory st (pc st)) (memory st (pc st + 1))
                (memory st (pc st + 2)) (memory st (pc st + 3))")
    case (Inl e)
    with assms f show ?thesis by (simp add: binary_exec_body_def)
  next
    case (Inr st1)
    with assms f show ?thesis
      by (auto simp: binary_exec_body_def split: if_splits)
  qed
qed

lemma binary_exec_loop_Inr:
  "binary_exec_loop ord (Suc n) st = Inr st' \<Longrightarrow> 0 \<le> pc st' \<and> pc st' \<le> binary_length st'"
proof (induction n arbitrary: ord st)
  case 0
  then show ?case
    by (auto split: sum.splits dest: binary_exec_body_Inr)
next
  case (Suc n)
  from Suc.prems obtain st1 where "binary_exec_body (ord 0) st = Inr st1"
    and "binary_exec_loop (\<lambda>k. ord (Suc k)) (Suc n) st1 = Inr st'"
    by (auto split: sum.splits)
  then show ?case using Suc.IH by blast
qed

text \<open>
  C8. Every round of the loop that lets the run go on leaves \<open>0 \<le> pc \<le> binary.length\<close>,
  and so does every machine the loop reaches after at least one round. A round whose
  operation completes with \<open>pc\<close> outside this range ends the run through \<^verbatim>\<open>vm_fail\<close> with
  the message \<^verbatim>\<open>Program counter out of bounds.\<close>; in particular a \<open>jmp\<close> whose target is
  greater than \<open>binary.length\<close> ends the run in the round that executes it, however many
  rounds the loop is given.
\<close>

theorem pc_checked_after_every_step:
  "(binary_exec_body lr st = Inr st' \<longrightarrow> 0 \<le> pc st' \<and> pc st' \<le> binary_length st') \<and>
   (binary_exec_loop ord (Suc n) st = Inr st' \<longrightarrow> 0 \<le> pc st' \<and> pc st' \<le> binary_length st') \<and>
   (in_bounds MEMORY_SIZE (pc st) \<and> in_bounds MEMORY_SIZE (pc st + 3) \<and>
    operation_exec lr st (memory st (pc st)) (memory st (pc st + 1))
      (memory st (pc st + 2)) (memory st (pc st + 3)) = Inr st1 \<and>
    (pc st1 < 0 \<or> binary_length st1 < pc st1) \<longrightarrow>
      binary_exec_body lr st = Inl (Aborted ''Program counter out of bounds.'' [], stdout st1)) \<and>
   (in_bounds MEMORY_SIZE (pc st) \<and> in_bounds MEMORY_SIZE (pc st + 3) \<and>
    memory st (pc st) = 6 \<and> val_get st (memory st (pc st + 1)) = Inr t \<and>
    binary_length st < uint t \<longrightarrow>
      binary_exec_body lr st = Inl (Aborted ''Program counter out of bounds.'' [], stdout st) \<and>
      binary_exec_loop ord (Suc n) st
        = Inl (Aborted ''Program counter out of bounds.'' [], stdout st))"
proof (intro conjI impI)
  assume "binary_exec_body lr st = Inr st'"
  then show "0 \<le> pc st'" and "pc st' \<le> binary_length st'"
    by (auto dest: binary_exec_body_Inr)
next
  assume a: "binary_exec_loop ord (Suc n) st = Inr st'"
  show "0 \<le> pc st'" and "pc st' \<le> binary_length st'"
    using binary_exec_loop_Inr [OF a] by simp_all
next
  assume "in_bounds MEMORY_SIZE (pc st) \<and> in_bounds MEMORY_SIZE (pc st + 3) \<and>
    operation_exec lr st (memory st (pc st)) (memory st (pc st + 1))
      (memory st (pc st + 2)) (memory st (pc st + 3)) = Inr st1 \<and>
    (pc st1 < 0 \<or> binary_length st1 < pc st1)"
  then show "binary_exec_body lr st
      = Inl (Aborted ''Program counter out of bounds.'' [], stdout st1)"
    by (auto simp: binary_exec_body_def)
next
  assume a: "in_bounds MEMORY_SIZE (pc st) \<and> in_bounds MEMORY_SIZE (pc st + 3) \<and>
    memory st (pc st) = 6 \<and> val_get st (memory st (pc st + 1)) = Inr t \<and>
    binary_length st < uint t"
  have j: "\<And>l. binary_exec_body l st
      = Inl (Aborted ''Program counter out of bounds.'' [], stdout st)"
    using a by (simp add: binary_exec_body_def operation_exec_def pc_set_def)
  from j show "binary_exec_body lr st
      = Inl (Aborted ''Program counter out of bounds.'' [], stdout st)" .
  from j show "binary_exec_loop ord (Suc n) st
      = Inl (Aborted ''Program counter out of bounds.'' [], stdout st)"
    by simp
qed

theorem pc_checked_after_every_step_witness:
  "binary_exec_body True ((globals [])\<lparr>memory := (\<lambda>i. 0)(0 := 21), binary_length := 1\<rparr>)
     = Inr ((globals [])\<lparr>memory := (\<lambda>i. 0)(0 := 21), binary_length := 1, pc := 1\<rparr>) \<and>
   binary_exec_body True
       ((globals [])\<lparr>memory := (\<lambda>i. 0)(0 := 6, 1 := 100), binary_length := 2\<rparr>)
     = Inl (Aborted ''Program counter out of bounds.'' [], []) \<and>
   binary_exec_loop (\<lambda>k. True) (Suc 3)
       ((globals [])\<lparr>memory := (\<lambda>i. 0)(0 := 6, 1 := 100), binary_length := 2\<rparr>)
     = Inl (Aborted ''Program counter out of bounds.'' [], [])"
proof -
  let ?N = "(globals [])\<lparr>memory := (\<lambda>i. 0)(0 := 21), binary_length := 1\<rparr>"
  let ?J = "(globals [])\<lparr>memory := (\<lambda>i. 0)(0 := 6, 1 := 100), binary_length := 2\<rparr>"
  have n: "binary_exec_body True ?N = Inr (?N\<lparr>pc := 1\<rparr>)"
    by (simp add: binary_exec_body_def operation_exec_def pc_add_def in_bounds_def globals_def)
  have "in_bounds MEMORY_SIZE (pc ?J) \<and> in_bounds MEMORY_SIZE (pc ?J + 3) \<and>
    memory ?J (pc ?J) = 6 \<and> val_get ?J (memory ?J (pc ?J + 1)) = Inr 100 \<and>
    binary_length ?J < uint (100 :: u16)"
    by (simp add: in_bounds_def val_get_def globals_def)
  with pc_checked_after_every_step
    [where st = ?J and t = 100 and lr = True and ord = "\<lambda>k. True" and n = 3]
  have "binary_exec_body True ?J = Inl (Aborted ''Program counter out of bounds.'' [], stdout ?J) \<and>
      binary_exec_loop (\<lambda>k. True) (Suc 3) ?J
        = Inl (Aborted ''Program counter out of bounds.'' [], stdout ?J)"
    by blast
  with n show ?thesis by (simp add: globals_def)
qed

section \<open>The machine while it runs\<close>

lemma operation_exec_keeps:
  assumes "operation_exec lr st opcode a b c = Inr st'"
  shows "(- 1 \<le> stack_position st \<longrightarrow> - 1 \<le> stack_position st') \<and>
         binary_length st' = binary_length st"
proof -
  from assms have "opcode \<in> {1, 2, 3, 4, 5, 6, 7, 8, 9, 10, 11, 12, 13, 14, 15, 16, 17, 18, 19, 20, 21}"
    by (rule operation_exec_Inr_opcode)
  then show ?thesis
    using assms
    by (elim insertE emptyE)
      (auto simp: operation_exec_def and_then_eq_Inr prim_defs
        split: if_splits list.splits prod.splits)
qed

lemma binary_exec_body_keeps:
  assumes "binary_exec_body lr st = Inr st'"
  shows "(- 1 \<le> stack_position st \<longrightarrow> - 1 \<le> stack_position st') \<and>
         binary_length st' = binary_length st"
proof (cases "operation_exec lr st (memory st (pc st)) (memory st (pc st + 1))
                (memory st (pc st + 2)) (memory st (pc st + 3))")
  case (Inl e)
  with assms show ?thesis by (simp add: binary_exec_body_def split: if_splits)
next
  case (Inr st1)
  with assms have "st1 = st'" by (simp add: binary_exec_body_def split: if_splits)
  with Inr show ?thesis by (auto dest: operation_exec_keeps)
qed

lemma binary_exec_loop_keeps:
  "binary_exec_loop ord n st = Inr st' \<Longrightarrow>
   (- 1 \<le> stack_position st \<longrightarrow> - 1 \<le> stack_position st') \<and>
   binary_length st' = binary_length st"
proof (induction n arbitrary: ord st)
  case 0
  then show ?case by simp
next
  case (Suc n)
  from Suc.prems obtain st1 where b: "binary_exec_body (ord 0) st = Inr st1"
    and l: "binary_exec_loop (\<lambda>k. ord (Suc k)) n st1 = Inr st'"
    by (auto split: sum.splits)
  from binary_exec_body_keeps [OF b] Suc.IH [OF l] show ?case by simp
qed

text \<open>
  Every machine that \<^verbatim>\<open>main\<close> is still running has a stack position of at least \<open>-1\<close> and
  a program counter between 0 and \<open>binary.length\<close>, which is at most \<open>MEMORY_SIZE\<close>: the
  conditions under which the properties of the stack and of \<open>call\<close> are stated hold in
  every machine a run reaches.
\<close>

lemma main_running:
  assumes "main ord n argv fs inp = Inr st"
  shows "- 1 \<le> stack_position st \<and> 0 \<le> pc st \<and> pc st \<le> binary_length st \<and>
         binary_length st \<le> MEMORY_SIZE"
proof -
  from assms obtain st0 st1 where i: "binary_init (globals inp) argv = (0, st0)"
    and l: "binary_load fs (stack_init (mem_init (reg_init st0))) = Inr st1"
    and e: "binary_exec_loop ord n (st1\<lparr>pc := 0\<rparr>) = Inr st"
    by (auto simp: main_def binary_exec_def binary_init_def split: prod.splits sum.splits if_splits)
  from l have s1: "stack_position st1 = - 1" and b1: "0 \<le> binary_length st1"
    and b2: "binary_length st1 \<le> MEMORY_SIZE"
    by (auto simp: binary_load_def stack_init_def mem_init_def reg_init_def vm_fail_def
        split: option.splits if_splits)
  from binary_exec_loop_keeps [OF e] s1 have k: "- 1 \<le> stack_position st"
    and bl: "binary_length st = binary_length st1"
    by simp_all
  have "0 \<le> pc st \<and> pc st \<le> binary_length st"
  proof (cases n)
    case 0
    with e b1 bl show ?thesis by auto
  next
    case (Suc m)
    with e have "binary_exec_loop ord (Suc m) (st1\<lparr>pc := 0\<rparr>) = Inr st" by simp
    then show ?thesis by (rule binary_exec_loop_Inr)
  qed
  with k bl b2 show ?thesis by simp
qed

section \<open>Loading\<close>

lemma uint_u8_range: "0 \<le> uint (w :: u8) \<and> uint w \<le> 255"
  using uint_bounded [of w] by simp

lemma uint_little_endian:
  "uint (word_of_int (uint (lo :: u8) + 256 * uint (hi :: u8)) :: u16) = uint lo + 256 * uint hi"
  using uint_u8_range [of lo] uint_u8_range [of hi]
  by (intro uint_word_of_int_u16) linarith+

text \<open>
  C9, as the code has it. \<^verbatim>\<open>binary_load\<close> has no check of the parity of the size. Every
  file that can be opened and is not longer than \<^verbatim>\<open>memory.contents\<close>, of odd or even size,
  is loaded: the recorded size is the number of bytes, the recorded length is the size
  divided by 2 rounding down, word \<open>i\<close> below that length is the little-endian value of
  the bytes \<open>2 * i\<close> and \<open>2 * i + 1\<close>, and the words that no byte reaches keep their
  content. When the machine is the one \<^verbatim>\<open>main\<close> has initialised, \<^verbatim>\<open>main\<close> goes on with
  \<^verbatim>\<open>binary_exec\<close> on the loaded machine.
\<close>

theorem binary_load_any_length:
  assumes "fs (binary_path st) = Some bytes" and "int (length bytes) \<le> 2 * MEMORY_SIZE"
  shows "\<exists>st'. binary_load fs st = Inr st' \<and>
           binary_size st' = int (length bytes) \<and>
           binary_length st' = int (length bytes) div 2 \<and>
           (\<forall>i. 0 \<le> i \<and> i < int (length bytes) div 2 \<longrightarrow>
              uint (memory st' i)
                = uint (bytes ! nat (2 * i)) + 256 * uint (bytes ! nat (2 * i + 1))) \<and>
           (\<forall>i. int (length bytes) \<le> 2 * i \<longrightarrow> memory st' i = memory st i) \<and>
           (2 \<le> length argv \<and>
            st = stack_init (mem_init (reg_init ((globals inp)\<lparr>binary_path := argv ! 1\<rparr>))) \<longrightarrow>
              main ord n argv fs inp = binary_exec ord n st')"
proof -
  let ?st' = "st\<lparr>binary_size := int (length bytes),
                 memory := (\<lambda>i. if in_bounds MEMORY_SIZE i
                                then fread_word bytes (memory st i) i else memory st i),
                 binary_length := int (length bytes) div 2\<rparr>"
  have l: "binary_load fs st = Inr ?st'"
    using assms by (simp add: binary_load_def)
  have w: "uint (memory ?st' i) = uint (bytes ! nat (2 * i)) + 256 * uint (bytes ! nat (2 * i + 1))"
    if "0 \<le> i \<and> i < int (length bytes) div 2" for i
  proof -
    from that have "2 * i + 1 < int (length bytes)" by linarith
    moreover from this assms(2) that have "in_bounds MEMORY_SIZE i"
      by (simp add: in_bounds_def)
    ultimately have "memory ?st' i
        = word_of_int (uint (bytes ! nat (2 * i)) + 256 * uint (bytes ! nat (2 * i + 1)))"
      by (simp add: fread_word_def)
    then show ?thesis
      by (simp only: uint_little_endian)
  qed
  have r: "memory ?st' i = memory st i" if "int (length bytes) \<le> 2 * i" for i
    using that by (simp add: fread_word_def)
  have m: "main ord n argv fs inp = binary_exec ord n ?st'"
    if "2 \<le> length argv \<and>
        st = stack_init (mem_init (reg_init ((globals inp)\<lparr>binary_path := argv ! 1\<rparr>)))"
  proof -
    from that have "binary_init (globals inp) argv = (0, (globals inp)\<lparr>binary_path := argv ! 1\<rparr>)"
      by (simp add: binary_init_def)
    moreover from that l have
      "binary_load fs (stack_init (mem_init (reg_init ((globals inp)\<lparr>binary_path := argv ! 1\<rparr>))))
         = Inr ?st'"
      by simp
    ultimately show ?thesis
      by (simp add: main_def)
  qed
  from l w r m show ?thesis
    by (intro exI [of _ ?st']) simp
qed

theorem binary_load_any_length_witness:
  "\<exists>st'. binary_load (\<lambda>path. Some [9, 0, 0, 128, 4])
           (stack_init (mem_init (reg_init ((globals [])\<lparr>binary_path := ''odd.bin''\<rparr>))))
           = Inr st' \<and>
         binary_size st' = 5 \<and> binary_length st' = 2 \<and>
         uint (memory st' 0) = 9 \<and> uint (memory st' 1) = 32768 \<and>
         main (\<lambda>k. True) 1 [''vm'', ''odd.bin''] (\<lambda>path. Some [9, 0, 0, 128, 4]) []
           = binary_exec (\<lambda>k. True) 1 st'"
proof -
  let ?bytes = "[9, 0, 0, 128, 4] :: u8 list"
  let ?st = "stack_init (mem_init (reg_init ((globals [])\<lparr>binary_path := ''odd.bin''\<rparr>)))"
  have "(\<lambda>path. Some ?bytes) (binary_path ?st) = Some ?bytes"
    and "int (length ?bytes) \<le> 2 * MEMORY_SIZE"
    by simp_all
  from binary_load_any_length
    [OF this, where argv = "[''vm'', ''odd.bin'']" and inp = "[]" and ord = "\<lambda>k. True" and n = 1]
  obtain st' where
    l: "binary_load (\<lambda>path. Some ?bytes) ?st = Inr st'"
    and s: "binary_size st' = int (length ?bytes)"
    and n: "binary_length st' = int (length ?bytes) div 2"
    and w: "\<forall>i. 0 \<le> i \<and> i < int (length ?bytes) div 2 \<longrightarrow>
              uint (memory st' i)
                = uint (?bytes ! nat (2 * i)) + 256 * uint (?bytes ! nat (2 * i + 1))"
    and m: "2 \<le> length [''vm'', ''odd.bin''] \<and>
            ?st = stack_init (mem_init (reg_init
                    ((globals [])\<lparr>binary_path := [''vm'', ''odd.bin''] ! 1\<rparr>))) \<longrightarrow>
            main (\<lambda>k. True) 1 [''vm'', ''odd.bin''] (\<lambda>path. Some ?bytes) []
              = binary_exec (\<lambda>k. True) 1 st'"
    by blast
  from w [rule_format, of 0] have "uint (memory st' 0) = 9" by simp
  moreover from w [rule_format, of 1] have "uint (memory st' 1) = 32768" by simp
  moreover from m have "main (\<lambda>k. True) 1 [''vm'', ''odd.bin''] (\<lambda>path. Some ?bytes) []
      = binary_exec (\<lambda>k. True) 1 st'"
    by simp
  ultimately show ?thesis using l s n by (intro exI [of _ st']) simp
qed

text \<open>
  C9, as claimed, fails: a file of one byte is loaded without any error, and the engine
  starts and executes the \<open>halt\<close> that the byte encodes.
\<close>

theorem odd_length_counterexample:
  "\<not> isl (binary_load (\<lambda>path. Some [0]) (stack_init (mem_init (reg_init (globals []))))) \<and>
   main (\<lambda>k. True) (Suc 0) [''vm'', ''odd.bin''] (\<lambda>path. Some [0]) [] = Inl (Halted, [])"
  by (simp add: main_def binary_init_def binary_load_def binary_exec_def
        binary_exec_body_def fread_word_def in_bounds_def operation_exec_def
        globals_def stack_init_def mem_init_def reg_init_def)


section \<open>Determinism\<close>

lemma val_get_Inl:
  "val_get st x = Inl e \<Longrightarrow> e = Aborted ''Function %s() failed!'' [S ''val_get'']"
  by (auto simp: val_get_def reg_read_def in_bounds_def vm_fail_def split: if_splits)

lemma val_get2_order: "val_get2 lr st x y = val_get2 lr' st x y"
proof (cases "val_get st x")
  case x: (Inl e)
  show ?thesis
  proof (cases "val_get st y")
    case y: (Inl e')
    from x y have "e = e'" by (auto dest!: val_get_Inl)
    with x y show ?thesis by (simp add: val_get2_def)
  next
    case (Inr vy)
    with x show ?thesis by (simp add: val_get2_def)
  qed
next
  case (Inr vx)
  then show ?thesis by (cases "val_get st y") (simp_all add: val_get2_def)
qed

lemma operation_exec_order:
  "operation_exec lr st opcode a b c = operation_exec lr' st opcode a b c"
  unfolding operation_exec_def val_get2_order [of lr _ _ _ lr'] ..

lemma binary_exec_body_order: "binary_exec_body lr st = binary_exec_body lr' st"
  unfolding binary_exec_body_def operation_exec_order [of lr _ _ _ _ _ lr'] ..

lemma binary_exec_loop_order: "binary_exec_loop ord n st = binary_exec_loop ord' n st"
proof (induction n arbitrary: ord ord' st)
  case 0
  show ?case by simp
next
  case (Suc n)
  have "binary_exec_body (ord 0) st = binary_exec_body (ord' 0) st"
    by (rule binary_exec_body_order)
  moreover have "binary_exec_loop (\<lambda>k. ord (Suc k)) n s = binary_exec_loop (\<lambda>k. ord' (Suc k)) n s"
    for s by (rule Suc.IH)
  ultimately show ?case by (simp split: sum.splits)
qed

lemma binary_exec_order:
  "binary_exec ord n st = binary_exec ord' n st \<and>
   main ord n argv fs inp = main ord' n argv fs inp"
proof -
  have "binary_exec ord n s = binary_exec ord' n s" for s
    unfolding binary_exec_def by (rule binary_exec_loop_order)
  then show ?thesis
    by (simp add: main_def split: prod.splits sum.splits)
qed







end
